theory Spec2Isabelle
  imports Complex_Main "HOL-Library.Sublist"
begin

section \<open>Model building notebook (notebooks/2b\_model\_building.ipynb)\<close>

text \<open>
  The notebook is a straight-line script over pyspark objects. Its own code is the column
  filter, the constants handed to the library, the choice of the classifier, the order of
  the stages and the path of the artifact; these are embedded as they are written. The
  pyspark classes it calls (DataFrame, VectorAssembler, VectorIndexer, StringIndexer,
  Pipeline, MLWriter) are not part of the repository; each has a small model below, marked
  as such. The table name and the model type come from notebook widgets; they are the
  arguments of the functions below.
\<close>

subsection \<open>Data frames\<close>

text \<open>
  A cell holds a scalar of the column's type or an assembled vector. A frame is its
  schema (the column names, in order) and its rows, each row listing its cells in schema
  order. The table the notebook loads is the feature table of the preceding notebook: its
  feature columns are numeric and hold no missing value. Column types and missing values
  are not represented, so a string or null cell among the feature columns, which the
  assembler would refuse, is outside this model.
\<close>

datatype 'v cell = Scalar 'v | Vector "'v list"

record 'v frame =
  columns :: "string list"
  rows :: "'v cell list list"

definition rectangular :: "'v frame \<Rightarrow> bool" where
  "rectangular df = list_all (\<lambda>r. length r = length (columns df)) (rows df)"

text \<open>
  Spark resolves a column name against the schema without regard to letter case (its
  default setting), so \<open>label_e\<close> names a column \<open>LABEL_E\<close>. Names are compared after
  lowering the ASCII capitals. A name is resolved when exactly one column matches it; it
  is unknown with no match and ambiguous with several.
\<close>

definition lower_char :: "char \<Rightarrow> char" where
  "lower_char c =
     (case map_of (zip ''ABCDEFGHIJKLMNOPQRSTUVWXYZ'' ''abcdefghijklmnopqrstuvwxyz'') c of
        Some l \<Rightarrow> l
      | None \<Rightarrow> c)"

definition lower :: "string \<Rightarrow> string" where
  "lower name = map lower_char name"

definition matches :: "string list \<Rightarrow> string \<Rightarrow> string list" where
  "matches cols c = filter (\<lambda>c'. lower c' = lower c) cols"

definition unresolved :: "string list \<Rightarrow> string list \<Rightarrow> string list" where
  "unresolved cols names = filter (\<lambda>c. length (matches cols c) \<noteq> 1) names"

text \<open>The cell of a row under a column name, the name resolved as above.\<close>

definition cell_at :: "string list \<Rightarrow> 'v cell list \<Rightarrow> string \<Rightarrow> 'v cell option" where
  "cell_at cols r c = map_of (zip (map lower cols) r) (lower c)"

definition row_values :: "string list \<Rightarrow> 'v cell list \<Rightarrow> string list \<Rightarrow> 'v cell list" where
  "row_values cols r names = List.map_filter (cell_at cols r) names"

definition column_values :: "string \<Rightarrow> 'v frame \<Rightarrow> 'v cell list" where
  "column_values c df = List.map_filter (\<lambda>r. cell_at (columns df) r c) (rows df)"

datatype error =
  AnalysisException string
  | IllegalArgumentException string
  | IOException string

text \<open>
  Modelled from the spec: \<open>DataFrame.select\<close> is pyspark code, not in the repository.
  The result has exactly the named columns, under the names as written and in the order
  named, each row keeping its cells of those columns. Section 6: a required column that
  the schema lacks fails fast; a name that does not resolve (unknown or ambiguous) is an
  analysis error, raised at the call, the first such name reported.
\<close>

definition select :: "string list \<Rightarrow> 'v frame \<Rightarrow> error + 'v frame" where
  "select names df =
     (case unresolved (columns df) names of
        c # _ \<Rightarrow> Inl (AnalysisException c)
      | [] \<Rightarrow> Inr \<lparr>columns = names,
                   rows = map (\<lambda>r. row_values (columns df) r names) (rows df)\<rparr>)"

subsection \<open>Feature columns\<close>

text \<open>
  \<^verbatim>\<open>label_var = ['label_e']\<close>,
  \<^verbatim>\<open>key_cols = ['machineID','dt_truncated']\<close>,
  \<^verbatim>\<open>remove_names = label_var + key_cols + ['failure','model_encoded','model']\<close>,
  \<^verbatim>\<open>input_features = [x for x in train_data.columns if x not in set(remove_names)]\<close>.
\<close>

definition label_var :: "string list" where
  "label_var = [''label_e'']"

definition key_cols :: "string list" where
  "key_cols = [''machineID'', ''dt_truncated'']"

definition remove_names :: "string list" where
  "remove_names = label_var @ key_cols @ [''failure'', ''model_encoded'', ''model'']"

definition input_features :: "'v frame \<Rightarrow> string list" where
  "input_features train_data = [x \<leftarrow> columns train_data. x \<notin> set remove_names]"

subsection \<open>Feature assembler\<close>

record vector_assembler =
  inputCols :: "string list"
  outputCol :: string

text \<open>\<^verbatim>\<open>va = VectorAssembler(inputCols=(input_features), outputCol='features')\<close>\<close>

definition va :: "'v frame \<Rightarrow> vector_assembler" where
  "va train_data = \<lparr>inputCols = input_features train_data, outputCol = ''features''\<rparr>"

fun cell_values :: "'v cell \<Rightarrow> 'v list" where
  "cell_values (Scalar x) = [x]"
| "cell_values (Vector xs) = xs"

definition assemble :: "string list \<Rightarrow> string list \<Rightarrow> 'v cell list \<Rightarrow> 'v cell" where
  "assemble cols names r = Vector (concat (map cell_values (row_values cols r names)))"

text \<open>
  Modelled from the spec: \<open>VectorAssembler.transform\<close> is pyspark code, not in the
  repository. Section 4.1: it materialises one vector column per row from exactly the input
  columns, in their order; it fails if a named input column is absent from the schema; it
  adds the derived column and retains the original columns. The output column must be new
  (pyspark refuses an output column that already exists), and an input column whose name
  is ambiguous cannot be read. An empty list of input columns is not an error here: the
  derived vectors are then empty.
\<close>

definition va_transform :: "vector_assembler \<Rightarrow> 'v frame \<Rightarrow> error + 'v frame" where
  "va_transform a df =
     (case filter (\<lambda>c. c \<notin> set (columns df)) (inputCols a) of
        c # _ \<Rightarrow> Inl (IllegalArgumentException c)
      | [] \<Rightarrow>
          if outputCol a \<in> set (columns df) then Inl (IllegalArgumentException (outputCol a))
          else (case unresolved (columns df) (inputCols a) of
                  c # _ \<Rightarrow> Inl (AnalysisException c)
                | [] \<Rightarrow>
                    Inr \<lparr>columns = columns df @ [outputCol a],
                         rows = map (\<lambda>r. r @ [assemble (columns df) (inputCols a) r])
                                  (rows df)\<rparr>))"

text \<open>
  \<^verbatim>\<open>train_data = va.transform(train_data).select('machineID','dt_truncated','label_e','features')\<close>
\<close>

definition train_data :: "'v frame \<Rightarrow> error + 'v frame" where
  "train_data df =
     (case va_transform (va df) df of
        Inl e \<Rightarrow> Inl e
      | Inr vdf \<Rightarrow> select [''machineID'', ''dt_truncated'', ''label_e'', ''features''] vdf)"

subsection \<open>Indexers\<close>

text \<open>
  Modelled from the spec: \<open>VectorIndexer.fit\<close> is pyspark code, not in the repository.
  Section 4.2: for each input feature (a slot of the vector column) it decides categorical
  against continuous by the number of distinct values, at most \<open>maxCategories\<close> distinct
  values meaning categorical; a categorical feature gets a category-to-index map, a
  continuous one passes through (no map). The number of features is the size of the first
  vector.
\<close>

record 'v vector_indexer_model =
  numFeatures :: nat
  categoryMaps :: "(nat \<times> ('v \<times> nat) list) list"

definition vectors :: "string \<Rightarrow> 'v frame \<Rightarrow> 'v list list" where
  "vectors c df = map cell_values (column_values c df)"

definition slot :: "nat \<Rightarrow> 'v list \<Rightarrow> 'v option" where
  "slot j v = (if j < length v then Some (v ! j) else None)"

definition feature_values :: "nat \<Rightarrow> 'v list list \<Rightarrow> 'v list" where
  "feature_values j vs = remdups (List.map_filter (slot j) vs)"

definition category_map :: "'v list \<Rightarrow> ('v \<times> nat) list" where
  "category_map vals = zip vals [0..<length vals]"

definition vector_indexer_fit :: "nat \<Rightarrow> string \<Rightarrow> 'v frame \<Rightarrow> 'v vector_indexer_model" where
  "vector_indexer_fit maxCategories inputCol df =
     (let vs = vectors inputCol df;
          n = (case vs of [] \<Rightarrow> 0 | v # _ \<Rightarrow> length v)
      in \<lparr>numFeatures = n,
          categoryMaps = [(j, category_map (feature_values j vs)).
                            j \<leftarrow> [0..<n], length (feature_values j vs) \<le> maxCategories]\<rparr>)"

text \<open>
  \<^verbatim>\<open>featureIndexer = VectorIndexer(inputCol="features", outputCol="indexedFeatures",
                                 maxCategories=10).fit(train_data)\<close>
\<close>

definition featureIndexer :: "'v frame \<Rightarrow> 'v vector_indexer_model" where
  "featureIndexer td = vector_indexer_fit 10 ''features'' td"

text \<open>
  Modelled from the spec: \<open>StringIndexer.fit\<close> is pyspark code, not in the repository.
  Section 4.2: each distinct label value gets a dense integer index, the values ordered by
  descending frequency, ties broken by first-seen order. The model is the ordered list of
  labels; the index of a label is its position.
\<close>

record 'v string_indexer_model =
  labels :: "'v cell list"

definition first_seen :: "'a list \<Rightarrow> 'a list" where
  "first_seen xs = rev (remdups (rev xs))"

definition string_indexer_fit :: "string \<Rightarrow> 'v frame \<Rightarrow> 'v string_indexer_model" where
  "string_indexer_fit inputCol df =
     (let vals = column_values inputCol df
      in \<lparr>labels = sort_key (\<lambda>l. - int (count_list vals l)) (first_seen vals)\<rparr>)"

fun index_of :: "'a \<Rightarrow> 'a list \<Rightarrow> nat option" where
  "index_of x [] = None"
| "index_of x (y # ys) = (if x = y then Some 0 else map_option Suc (index_of x ys))"

definition label_index :: "'v string_indexer_model \<Rightarrow> 'v cell \<Rightarrow> nat option" where
  "label_index m l = index_of l (labels m)"

text \<open>
  \<^verbatim>\<open>labelIndexer = StringIndexer(inputCol="label_e", outputCol="indexedLabel").fit(train_data)\<close>
\<close>

definition labelIndexer :: "'v frame \<Rightarrow> 'v string_indexer_model" where
  "labelIndexer td = string_indexer_fit ''label_e'' td"

text \<open>\<^verbatim>\<open>training = train_data\<close>\<close>

definition training :: "'v frame \<Rightarrow> 'v frame" where
  "training td = td"

subsection \<open>Model selector\<close>

record tree_params =
  labelCol :: string
  featuresCol :: string
  maxDepth :: int
  maxBins :: int
  minInstancesPerNode :: int
  minInfoGain :: real
  impurity :: string

record forest_params = tree_params +
  numTrees :: int
  featureSubsetStrategy :: string
  subsamplingRate :: real

datatype classifier =
  DecisionTreeClassifier tree_params
  | RandomForestClassifier forest_params

text \<open>
  The \<^verbatim>\<open>if model_type == 'DecisionTree': ... else: ...\<close> of the notebook; the
  \<^verbatim>\<open>elif model_type == 'GBTClassifier'\<close> branch is commented out in the source.
  A float literal stands for the decimal it is written as.
\<close>

definition model :: "string \<Rightarrow> classifier" where
  "model model_type =
     (if model_type = ''DecisionTree'' then
        DecisionTreeClassifier
          \<lparr>labelCol = ''indexedLabel'', featuresCol = ''indexedFeatures'',
           maxDepth = 15, maxBins = 32, minInstancesPerNode = 1, minInfoGain = 0.0,
           impurity = ''gini''\<rparr>
      else
        RandomForestClassifier
          \<lparr>labelCol = ''indexedLabel'', featuresCol = ''indexedFeatures'',
           maxDepth = 15, maxBins = 32, minInstancesPerNode = 1, minInfoGain = 0.0,
           impurity = ''gini'',
           numTrees = 200, featureSubsetStrategy = ''sqrt'', subsamplingRate = 0.632\<rparr>)"

text \<open>The hyperparameters every tree classifier has, read off either variant.\<close>

fun tree_params_of :: "classifier \<Rightarrow> tree_params" where
  "tree_params_of (DecisionTreeClassifier p) = p"
| "tree_params_of (RandomForestClassifier p) = tree_params.truncate p"

subsection \<open>Pipeline\<close>

text \<open>
  A stage is a fitted indexer (a transformer) or the classifier (an estimator, which the
  fit turns into a classification model). The trees themselves are not computed here: a
  fitted classifier is recorded as its configuration and the frame it was fit on.
\<close>

datatype 'v stage =
  StringIndexerModel "'v string_indexer_model"
  | VectorIndexerModel "'v vector_indexer_model"
  | Estimator classifier
  | ClassificationModel classifier "'v frame"

text \<open>
  Modelled from the spec: the classifier's \<open>fit\<close> is pyspark code, not in the repository.
  Section 7: a run that cannot train aborts and persists nothing. The tree learners
  refuse a frame with no row and feature vectors with no slot. The indexed feature vectors
  the classifier reads are not computed here; they have the rows and the sizes of the
  assembled vectors of column \<open>features\<close>, which stand in for them.
\<close>

definition classifier_fit :: "classifier \<Rightarrow> 'v frame \<Rightarrow> error + 'v stage" where
  "classifier_fit c d =
     (case vectors ''features'' d of
        [] \<Rightarrow> Inl (IllegalArgumentException ''empty dataset'')
      | v # _ \<Rightarrow>
          if v = [] then Inl (IllegalArgumentException ''no features'')
          else Inr (ClassificationModel c d))"

text \<open>
  Modelled from the spec: \<open>Pipeline.fit\<close> is pyspark code, not in the repository.
  Section 4.5: the indexer metadata, computed beforehand, is attached to the pipeline, and
  the model is fit on the frame handed to the single entry point. The stages are taken in
  order: a fitted indexer is kept as it is, the classifier is fit on the frame, and the
  first failure ends the fit.
\<close>

fun fit_stage :: "'v frame \<Rightarrow> 'v stage \<Rightarrow> error + 'v stage" where
  "fit_stage d (Estimator c) = classifier_fit c d"
| "fit_stage d s = Inr s"

fun pipeline_fit :: "'v stage list \<Rightarrow> 'v frame \<Rightarrow> error + 'v stage list" where
  "pipeline_fit [] d = Inr []"
| "pipeline_fit (s # ss) d =
     (case fit_stage d s of
        Inl e \<Rightarrow> Inl e
      | Inr s' \<Rightarrow> (case pipeline_fit ss d of Inl e \<Rightarrow> Inl e | Inr ss' \<Rightarrow> Inr (s' # ss')))"

text \<open>\<^verbatim>\<open>pipeline_cls_mthd = Pipeline(stages=[labelIndexer, featureIndexer, model])\<close>\<close>

definition pipeline_cls_mthd :: "'v frame \<Rightarrow> string \<Rightarrow> 'v stage list" where
  "pipeline_cls_mthd td model_type =
     [StringIndexerModel (labelIndexer td), VectorIndexerModel (featureIndexer td),
      Estimator (model model_type)]"

text \<open>\<^verbatim>\<open>model_pipeline = pipeline_cls_mthd.fit(training)\<close>\<close>

definition model_pipeline :: "'v frame \<Rightarrow> string \<Rightarrow> error + 'v stage list" where
  "model_pipeline td model_type = pipeline_fit (pipeline_cls_mthd td model_type) (training td)"

subsection \<open>Artifact store\<close>

text \<open>
  Modelled from the spec: \<open>MLWriter\<close> is pyspark code, not in the repository. Section
  4.6: the pipeline is stored at a location keyed by a path, and a save with overwrite
  semantics replaces any prior artifact at the same key. The store is a map from paths to
  artifacts; \<open>write()\<close> gives a writer that refuses an existing path, \<open>overwrite()\<close>
  lifts that, \<open>save(path)\<close> stores the artifact at the path.
\<close>

type_synonym 'a store = "string \<rightharpoonup> 'a"

record 'a ml_writer =
  instance_of :: 'a
  shouldOverwrite :: bool

definition writer :: "'a \<Rightarrow> 'a ml_writer" where
  "writer p = \<lparr>instance_of = p, shouldOverwrite = False\<rparr>"

definition overwrite :: "'a ml_writer \<Rightarrow> 'a ml_writer" where
  "overwrite w = w\<lparr>shouldOverwrite := True\<rparr>"

definition save :: "'a ml_writer \<Rightarrow> string \<Rightarrow> 'a store \<Rightarrow> error + 'a store" where
  "save w path st =
     (if st path \<noteq> None \<and> \<not> shouldOverwrite w then Inl (IOException path)
      else Inr (st(path \<mapsto> instance_of w)))"

text \<open>\<^verbatim>\<open>"dbfs:/storage/models/" + model_type + ".pqt"\<close>\<close>

definition model_path :: "string \<Rightarrow> string" where
  "model_path model_type = ''dbfs:/storage/models/'' @ model_type @ ''.pqt''"

text \<open>\<^verbatim>\<open>model_pipeline.write().overwrite().save("dbfs:/storage/models/" + model_type + ".pqt")\<close>\<close>

definition save_model :: "'a \<Rightarrow> string \<Rightarrow> 'a store \<Rightarrow> error + 'a store" where
  "save_model p model_type st = save (overwrite (writer p)) (model_path model_type) st"

subsection \<open>The whole run\<close>

text \<open>
  The cells in order, from the loaded table, the model type and the store before the run.
  The run records the fits it has carried out, the error that ended it (if any) and the
  store after it. An error ends the run at the cell that raised it: the later cells are
  not executed, so a run that fails before the last cell leaves the store as it was.
\<close>

datatype event = FitVectorIndexer | FitStringIndexer | FitPipeline | SaveModel string

record 'v run =
  events :: "event list"
  raised :: "error option"
  artifacts :: "'v stage list store"

definition notebook :: "'v frame \<Rightarrow> string \<Rightarrow> 'v stage list store \<Rightarrow> 'v run" where
  "notebook df model_type st =
     (case train_data df of
        Inl e \<Rightarrow> \<lparr>events = [], raised = Some e, artifacts = st\<rparr>
      | Inr td \<Rightarrow>
          (case model_pipeline td model_type of
             Inl e \<Rightarrow>
               \<lparr>events = [FitVectorIndexer, FitStringIndexer], raised = Some e,
                artifacts = st\<rparr>
           | Inr fitted \<Rightarrow>
               (case save_model fitted model_type st of
                  Inl e \<Rightarrow>
                    \<lparr>events = [FitVectorIndexer, FitStringIndexer, FitPipeline],
                     raised = Some e, artifacts = st\<rparr>
                | Inr st' \<Rightarrow>
                    \<lparr>events = [FitVectorIndexer, FitStringIndexer, FitPipeline,
                               SaveModel (model_path model_type)],
                     raised = None, artifacts = st'\<rparr>)))"

subsection \<open>Observations used to state the properties\<close>

text \<open>The pairs (timestamp, label) of a frame's rows, in row order.\<close>

definition timestamp_labels :: "'v frame \<Rightarrow> ('v cell option \<times> 'v cell option) list" where
  "timestamp_labels df =
     map (\<lambda>r. (cell_at (columns df) r ''dt_truncated'', cell_at (columns df) r ''label_e'')) (rows df)"

text \<open>
  The splitting rule described in the notebook's text and in the specification, written
  out so that it can be compared with \<open>training\<close>. Timestamps are day numbers. The
  failure classes are the labels 1 to 4 (``failures 1-4'' in the notebook); a record is in
  the censoring window of a cutoff \<open>T\<close> when its timestamp is within the 7 days up to
  \<open>T\<close>.
\<close>

definition failure_class :: "int cell option \<Rightarrow> bool" where
  "failure_class l = (case l of Some (Scalar k) \<Rightarrow> 1 \<le> k \<and> k \<le> 4 | _ \<Rightarrow> False)"

definition in_censoring_window :: "int \<Rightarrow> int cell option \<Rightarrow> bool" where
  "in_censoring_window T t = (case t of Some (Scalar d) \<Rightarrow> T - 7 \<le> d \<and> d \<le> T | _ \<Rightarrow> False)"

definition censored :: "int \<Rightarrow> int frame \<Rightarrow> bool" where
  "censored T df =
     list_all (\<lambda>(t, l). \<not> (in_censoring_window T t \<and> failure_class l)) (timestamp_labels df)"

definition time_split :: "int \<Rightarrow> int frame \<Rightarrow> int frame" where
  "time_split T df =
     df\<lparr>rows := filter (\<lambda>r. case cell_at (columns df) r ''dt_truncated'' of
                               Some (Scalar d) \<Rightarrow> d \<le> T | _ \<Rightarrow> False) (rows df)\<rparr>"

text \<open>Every feature cell of the table is a scalar (no nested vector column).\<close>

definition scalar_features :: "'v frame \<Rightarrow> bool" where
  "scalar_features df =
     list_all (\<lambda>r. list_all (\<lambda>c. case cell_at (columns df) r c of
                                   Some (Scalar x) \<Rightarrow> True | _ \<Rightarrow> False)
                      (input_features df)) (rows df)"

subsection \<open>Example tables\<close>

definition example_table :: "int frame" where
  "example_table =
     \<lparr>columns = [''machineID'', ''dt_truncated'', ''label_e'', ''volt'', ''rotate'', ''failure''],
      rows = [[Scalar 1, Scalar 98, Scalar 3, Scalar 170, Scalar 450, Scalar 3],
              [Scalar 1, Scalar 120, Scalar 0, Scalar 168, Scalar 440, Scalar 0],
              [Scalar 2, Scalar 50, Scalar 0, Scalar 170, Scalar 445, Scalar 0]]\<rparr>"

definition example_train_data :: "int frame" where
  "example_train_data =
     \<lparr>columns = [''machineID'', ''dt_truncated'', ''label_e'', ''features''],
      rows = [[Scalar 1, Scalar 98, Scalar 3, Vector [170, 450]],
              [Scalar 1, Scalar 120, Scalar 0, Vector [168, 440]],
              [Scalar 2, Scalar 50, Scalar 0, Vector [170, 445]]]\<rparr>"

definition keys_only_table :: "int frame" where
  "keys_only_table =
     \<lparr>columns = [''machineID'', ''dt_truncated'', ''label_e''],
      rows = [[Scalar 1, Scalar 98, Scalar 3]]\<rparr>"



definition wide_table :: "int frame" where
  "wide_table =
     \<lparr>columns = [''machineID'', ''dt_truncated'', ''label_e'', ''volt'', ''age''],
      rows = [[Scalar 1, Scalar 0, Scalar 0, Scalar 160, Scalar 18],
              [Scalar 1, Scalar 1, Scalar 0, Scalar 161, Scalar 18],
              [Scalar 1, Scalar 2, Scalar 0, Scalar 162, Scalar 18],
              [Scalar 1, Scalar 3, Scalar 0, Scalar 163, Scalar 18],
              [Scalar 1, Scalar 4, Scalar 0, Scalar 164, Scalar 18],
              [Scalar 1, Scalar 5, Scalar 0, Scalar 165, Scalar 18],
              [Scalar 1, Scalar 6, Scalar 0, Scalar 166, Scalar 20],
              [Scalar 1, Scalar 7, Scalar 0, Scalar 167, Scalar 20],
              [Scalar 1, Scalar 8, Scalar 0, Scalar 168, Scalar 20],
              [Scalar 1, Scalar 9, Scalar 0, Scalar 169, Scalar 20],
              [Scalar 1, Scalar 10, Scalar 0, Scalar 170, Scalar 20]]\<rparr>"

definition wide_train_data :: "int frame" where
  "wide_train_data =
     \<lparr>columns = [''machineID'', ''dt_truncated'', ''label_e'', ''features''],
      rows = [[Scalar 1, Scalar 0, Scalar 0, Vector [160, 18]],
              [Scalar 1, Scalar 1, Scalar 0, Vector [161, 18]],
              [Scalar 1, Scalar 2, Scalar 0, Vector [162, 18]],
              [Scalar 1, Scalar 3, Scalar 0, Vector [163, 18]],
              [Scalar 1, Scalar 4, Scalar 0, Vector [164, 18]],
              [Scalar 1, Scalar 5, Scalar 0, Vector [165, 18]],
              [Scalar 1, Scalar 6, Scalar 0, Vector [166, 20]],
              [Scalar 1, Scalar 7, Scalar 0, Vector [167, 20]],
              [Scalar 1, Scalar 8, Scalar 0, Vector [168, 20]],
              [Scalar 1, Scalar 9, Scalar 0, Vector [169, 20]],
              [Scalar 1, Scalar 10, Scalar 0, Vector [170, 20]]]\<rparr>"

section \<open>Auxiliary facts\<close>

subsection \<open>Names and cells of a row\<close>

lemma matches_append:
  "matches (cols @ [c']) c = matches cols c @ (if lower c' = lower c then [c'] else [])"
  by (simp add: matches_def)

lemma matches_Nil_iff: "matches cols c = [] \<longleftrightarrow> lower c \<notin> lower ` set cols"
  by (auto simp: matches_def filter_empty_conv) (metis imageI)

lemma unresolved_NilD:
  "unresolved cols names = [] \<Longrightarrow> c \<in> set names \<Longrightarrow> length (matches cols c) = 1"
  by (auto simp: unresolved_def filter_empty_conv)

lemma cell_at_append:
  "length r = length cols \<Longrightarrow>
   cell_at (cols @ [c']) (r @ [v]) c =
     (case cell_at cols r c of
        Some x \<Rightarrow> Some x
      | None \<Rightarrow> if lower c = lower c' then Some v else None)"
proof -
  assume len: "length r = length cols"
  have aux: "\<And>m. (case m of None \<Rightarrow> map_of [(lower c', v)] (lower c) | Some x \<Rightarrow> Some x) =
                 (case m of Some x \<Rightarrow> Some x
                  | None \<Rightarrow> if lower c = lower c' then Some v else None)"
    by (simp split: option.split)
  have "cell_at (cols @ [c']) (r @ [v]) c =
          (map_of [(lower c', v)] ++ map_of (zip (map lower cols) r)) (lower c)"
    using len by (simp add: cell_at_def)
  then show ?thesis
    unfolding map_add_def cell_at_def by (simp only: aux)
qed

lemma cell_at_None_iff:
  "length r = length cols \<Longrightarrow> cell_at cols r c = None \<longleftrightarrow> lower c \<notin> lower ` set cols"
proof -
  assume len: "length r = length cols"
  then have "map fst (zip (map lower cols) r) = map lower cols" by simp
  then have "fst ` set (zip (map lower cols) r) = lower ` set cols" by (metis set_map)
  then show ?thesis by (simp add: cell_at_def map_of_eq_None_iff)
qed

lemma cell_at_same_name: "lower c = lower c' \<Longrightarrow> cell_at cols r c = cell_at cols r c'"
  by (simp add: cell_at_def)

lemma row_values_Nil: "row_values cols r [] = []"
  by (simp add: row_values_def map_filter_simps)

lemma row_values_Cons:
  "row_values cols r (c # cs) =
     (case cell_at cols r c of None \<Rightarrow> row_values cols r cs | Some v \<Rightarrow> v # row_values cols r cs)"
  unfolding row_values_def by (simp add: map_filter_simps)

lemma cell_at_Cons:
  "cell_at (n # ns) (v # vs) c = (if lower c = lower n then Some v else cell_at ns vs c)"
  by (simp add: cell_at_def)

lemma cell_at_row_values:
  "length r = length cols \<Longrightarrow> \<forall>n \<in> set names. lower n \<in> lower ` set cols \<Longrightarrow>
   cell_at names (row_values cols r names) c =
     (if lower c \<in> lower ` set names then cell_at cols r c else None)"
proof (induction names)
  case Nil
  then show ?case by (simp add: row_values_Nil cell_at_def)
next
  case (Cons n ns)
  then obtain v where v: "cell_at cols r n = Some v"
    using cell_at_None_iff [of r cols n] by (cases "cell_at cols r n") auto
  from Cons have IH: "cell_at ns (row_values cols r ns) c =
                        (if lower c \<in> lower ` set ns then cell_at cols r c else None)"
    by simp
  show ?case
  proof (cases "lower c = lower n")
    case True
    then have "cell_at cols r c = Some v" using v cell_at_same_name by metis
    with True v show ?thesis by (simp add: row_values_Cons cell_at_Cons)
  next
    case False
    with v IH show ?thesis by (simp add: row_values_Cons cell_at_Cons)
  qed
qed

lemma rectangularD: "rectangular df \<Longrightarrow> r \<in> set (rows df) \<Longrightarrow> length r = length (columns df)"
  by (simp add: rectangular_def list_all_iff)

lemma map_filter_cong_map:
  "map f xs = map g ys \<Longrightarrow> List.map_filter f xs = List.map_filter g ys"
proof (induction xs arbitrary: ys)
  case Nil
  then show ?case by simp
next
  case (Cons x xs)
  then obtain y ys' where ys: "ys = y # ys'" and fx: "f x = g y" and rest: "map f xs = map g ys'"
    by (cases ys) auto
  from Cons.IH [OF rest] fx show ?case by (simp add: ys split: option.split)
qed

lemma map_filter_all_Some:
  "(\<And>x. x \<in> set xs \<Longrightarrow> f x = Some (h x)) \<Longrightarrow> List.map_filter f xs = map h xs"
  by (induction xs) simp_all

lemma map_filter_map_all_Some:
  "(\<And>x. x \<in> set xs \<Longrightarrow> f (g x) = Some (h x)) \<Longrightarrow> List.map_filter f (map g xs) = map h xs"
  by (induction xs) simp_all

subsection \<open>The prepared frame\<close>

lemma va_transform_va:
  "va_transform (va df) df =
     (if ''features'' \<in> set (columns df) then Inl (IllegalArgumentException ''features'')
      else case unresolved (columns df) (input_features df) of
             c # _ \<Rightarrow> Inl (AnalysisException c)
           | [] \<Rightarrow>
               Inr \<lparr>columns = columns df @ [''features''],
                    rows = map (\<lambda>r. r @ [assemble (columns df) (input_features df) r])
                             (rows df)\<rparr>)"
proof -
  have "filter (\<lambda>c. c \<notin> set (columns df)) (input_features df) = []"
    by (simp add: input_features_def)
  then show ?thesis by (simp add: va_transform_def va_def split: list.split)
qed

lemma train_data_InrD:
  assumes "train_data df = Inr td"
  shows "''features'' \<notin> set (columns df)"
    and "unresolved (columns df) (input_features df) = []"
    and "unresolved (columns df @ [''features''])
           [''machineID'', ''dt_truncated'', ''label_e'', ''features''] = []"
    and "columns td = [''machineID'', ''dt_truncated'', ''label_e'', ''features'']"
    and "rows td = map (\<lambda>r. row_values (columns df @ [''features''])
                                       (r @ [assemble (columns df) (input_features df) r])
                                       [''machineID'', ''dt_truncated'', ''label_e'', ''features''])
                                 (rows df)"
  using assms
  by (auto simp: train_data_def va_transform_va select_def comp_def
      split: if_splits list.splits)

lemma key_names_not_features:
  "lower ''features'' \<noteq> lower ''machineID''"
  "lower ''features'' \<noteq> lower ''dt_truncated''"
  "lower ''features'' \<noteq> lower ''label_e''"
  by code_simp+

lemma train_data_resolved:
  assumes ok: "train_data df = Inr td"
  shows "lower ''features'' \<notin> lower ` set (columns df)"
    and "c \<in> {''machineID'', ''dt_truncated'', ''label_e''} \<Longrightarrow>
         lower c \<in> lower ` set (columns df)"
proof -
  note U = train_data_InrD(3) [OF ok]
  have "length (matches (columns df @ [''features'']) ''features'') = 1"
    using unresolved_NilD [OF U, of "''features''"] by simp
  then have "matches (columns df) ''features'' = []"
    by (simp add: matches_append)
  then show "lower ''features'' \<notin> lower ` set (columns df)"
    by (simp add: matches_Nil_iff)
next
  assume c: "c \<in> {''machineID'', ''dt_truncated'', ''label_e''}"
  note U = train_data_InrD(3) [OF ok]
  from c have "length (matches (columns df @ [''features'']) c) = 1"
    using unresolved_NilD [OF U, of c] by auto
  moreover from c have "lower ''features'' \<noteq> lower c"
    using key_names_not_features by auto
  ultimately have "matches (columns df) c \<noteq> []"
    by (auto simp: matches_append)
  then show "lower c \<in> lower ` set (columns df)"
    by (simp add: matches_Nil_iff)
qed

lemma train_data_names_resolved:
  assumes ok: "train_data df = Inr td"
  shows "\<forall>n \<in> set [''machineID'', ''dt_truncated'', ''label_e'', ''features''].
           lower n \<in> lower ` set (columns df @ [''features''])"
  using train_data_resolved(2) [OF ok] by auto

lemma train_data_row_cell:
  assumes ok: "train_data df = Inr td" and len: "length r = length (columns df)"
    and c: "c \<in> {''machineID'', ''dt_truncated'', ''label_e''}"
  shows "cell_at (columns td)
           (row_values (columns df @ [''features''])
              (r @ [assemble (columns df) (input_features df) r])
              [''machineID'', ''dt_truncated'', ''label_e'', ''features'']) c
         = cell_at (columns df) r c"
proof -
  let ?a = "assemble (columns df) (input_features df) r"
  let ?names = "[''machineID'', ''dt_truncated'', ''label_e'', ''features'']"
  note sub = train_data_names_resolved [OF ok]
  have len': "length (r @ [?a]) = length (columns df @ [''features''])"
    using len by simp
  have cin: "lower c \<in> lower ` set ?names" using c by auto
  have "lower c \<in> lower ` set (columns df)"
    using train_data_resolved(2) [OF ok c] .
  then obtain x where x: "cell_at (columns df) r c = Some x"
    using cell_at_None_iff [OF len, of c] by (cases "cell_at (columns df) r c") auto
  have "cell_at ?names (row_values (columns df @ [''features'']) (r @ [?a]) ?names) c
        = cell_at (columns df @ [''features'']) (r @ [?a]) c"
    using cell_at_row_values [OF len' sub, of c] cin by simp
  also have "\<dots> = cell_at (columns df) r c"
    using cell_at_append [OF len, of "''features''" ?a c] x by simp
  finally show ?thesis by (simp add: train_data_InrD(4) [OF ok])
qed

lemma train_data_column:
  assumes ok: "train_data df = Inr td" and rect: "rectangular df"
    and c: "c \<in> {''machineID'', ''dt_truncated'', ''label_e''}"
  shows "map (\<lambda>r. cell_at (columns td) r c) (rows td) = map (\<lambda>r. cell_at (columns df) r c) (rows df)"
proof -
  have "\<And>r. r \<in> set (rows df) \<Longrightarrow>
          cell_at (columns td)
           (row_values (columns df @ [''features''])
              (r @ [assemble (columns df) (input_features df) r])
              [''machineID'', ''dt_truncated'', ''label_e'', ''features'']) c
         = cell_at (columns df) r c"
    using train_data_row_cell [OF ok _ c] rectangularD [OF rect] by blast
  then show ?thesis
    by (simp add: train_data_InrD(5) [OF ok] comp_def)
qed

lemma train_data_column_values:
  assumes ok: "train_data df = Inr td" and rect: "rectangular df"
    and c: "c \<in> {''machineID'', ''dt_truncated'', ''label_e''}"
  shows "column_values c td = column_values c df"
  unfolding column_values_def
  by (rule map_filter_cong_map) (rule train_data_column [OF ok rect c])

lemma train_data_features_cell:
  assumes ok: "train_data df = Inr td" and len: "length r = length (columns df)"
  shows "cell_at (columns td)
           (row_values (columns df @ [''features''])
              (r @ [assemble (columns df) (input_features df) r])
              [''machineID'', ''dt_truncated'', ''label_e'', ''features'']) ''features''
         = Some (assemble (columns df) (input_features df) r)"
proof -
  let ?a = "assemble (columns df) (input_features df) r"
  let ?names = "[''machineID'', ''dt_truncated'', ''label_e'', ''features'']"
  note sub = train_data_names_resolved [OF ok]
  have len': "length (r @ [?a]) = length (columns df @ [''features''])"
    using len by simp
  have none: "cell_at (columns df) r ''features'' = None"
    using cell_at_None_iff [OF len, of "''features''"] train_data_resolved(1) [OF ok] by simp
  have "cell_at ?names (row_values (columns df @ [''features'']) (r @ [?a]) ?names) ''features''
        = cell_at (columns df @ [''features'']) (r @ [?a]) ''features''"
    using cell_at_row_values [OF len' sub, of "''features''"] by simp
  also have "\<dots> = Some ?a"
    using cell_at_append [OF len, of "''features''" ?a "''features''"] none by simp
  finally show ?thesis by (simp add: train_data_InrD(4) [OF ok])
qed

lemma train_data_features_column:
  assumes ok: "train_data df = Inr td" and rect: "rectangular df"
  shows "column_values ''features'' td = map (assemble (columns df) (input_features df)) (rows df)"
proof -
  let ?g = "\<lambda>r. row_values (columns df @ [''features''])
              (r @ [assemble (columns df) (input_features df) r])
              [''machineID'', ''dt_truncated'', ''label_e'', ''features'']"
  have "List.map_filter (\<lambda>r. cell_at (columns td) (?g r) ''features'') (rows df)
        = map (assemble (columns df) (input_features df)) (rows df)"
    by (rule map_filter_all_Some)
       (simp add: train_data_features_cell [OF ok] rectangularD [OF rect])
  moreover have "column_values ''features'' td
        = List.map_filter (\<lambda>r. cell_at (columns td) (?g r) ''features'') (rows df)"
    unfolding column_values_def train_data_InrD(5) [OF ok]
    by (rule map_filter_cong_map) (simp add: comp_def)
  ultimately show ?thesis by simp
qed

lemma model_pipeline_eq:
  "model_pipeline td model_type =
     (case classifier_fit (model model_type) td of
        Inl e \<Rightarrow> Inl e
      | Inr m \<Rightarrow>
          Inr [StringIndexerModel (labelIndexer td), VectorIndexerModel (featureIndexer td), m])"
  by (simp add: model_pipeline_def pipeline_cls_mthd_def training_def split: sum.split)

lemma classifier_fit_InrD:
  "classifier_fit c d = Inr m \<Longrightarrow> m = ClassificationModel c d"
  by (auto simp: classifier_fit_def split: list.splits if_splits)

subsection \<open>Indexers\<close>

lemma index_of_SomeD:
  "index_of x xs = Some i \<Longrightarrow> i < length xs \<and> xs ! i = x"
proof (induction xs arbitrary: i)
  case Nil
  then show ?case by simp
next
  case (Cons y ys)
  show ?case
  proof (cases "x = y")
    case True
    with Cons.prems show ?thesis by simp
  next
    case False
    with Cons.prems obtain k where k: "index_of x ys = Some k" and i: "i = Suc k"
      by (cases "index_of x ys") auto
    from Cons.IH [OF k] i show ?thesis by simp
  qed
qed

lemma index_of_nth:
  "distinct xs \<Longrightarrow> i < length xs \<Longrightarrow> index_of (xs ! i) xs = Some i"
proof (induction xs arbitrary: i)
  case Nil
  then show ?case by simp
next
  case (Cons y ys)
  show ?case
  proof (cases i)
    case 0
    then show ?thesis by simp
  next
    case (Suc k)
    with Cons.prems have k: "k < length ys" and d: "distinct ys" and ne: "ys ! k \<noteq> y"
      by auto
    from Cons.IH [OF d k] ne Suc show ?thesis by simp
  qed
qed

lemma index_of_Some_iff:
  "distinct xs \<Longrightarrow> index_of x xs = Some i \<longleftrightarrow> i < length xs \<and> xs ! i = x"
  using index_of_SomeD index_of_nth by metis

lemma distinct_first_seen: "distinct (first_seen xs)"
  by (simp add: first_seen_def)

lemma set_first_seen: "set (first_seen xs) = set xs"
  by (simp add: first_seen_def)

lemma map_of_comprehension:
  "map_of [(j, f j). j \<leftarrow> js, P j] k = (if k \<in> set js \<and> P k then Some (f k) else None)"
  by (induction js) auto

lemma categoryMaps_lookup:
  "j < numFeatures (vector_indexer_fit mc c df) \<Longrightarrow>
   map_of (categoryMaps (vector_indexer_fit mc c df)) j =
     (if length (feature_values j (vectors c df)) \<le> mc
      then Some (category_map (feature_values j (vectors c df))) else None)"
  by (simp add: vector_indexer_fit_def Let_def map_of_comprehension)

lemma length_feature_values:
  "length (feature_values j vs) = card (set (List.map_filter (slot j) vs))"
  by (simp add: feature_values_def length_remdups_card_conv)

lemma category_map_props:
  "map fst (category_map vals) = vals \<and> map snd (category_map vals) = [0..<length vals]"
  by (simp add: category_map_def)

lemma list_all2_map_filter:
  "list_all2 (\<lambda>x y. f x = Some (g y)) xs ys \<Longrightarrow> List.map_filter f xs = map g ys"
  by (induction xs ys rule: list_all2_induct) simp_all

lemma scalar_row_values:
  "list_all (\<lambda>c. case cell_at cols r c of Some (Scalar x) \<Rightarrow> True | _ \<Rightarrow> False) names \<Longrightarrow>
   list_all2 (\<lambda>c x. cell_at cols r c = Some (Scalar x)) names
     (concat (map cell_values (row_values cols r names)))"
proof (induction names)
  case Nil
  then show ?case by (simp add: row_values_Nil)
next
  case (Cons n ns)
  then obtain x where x: "cell_at cols r n = Some (Scalar x)"
    by (auto split: option.splits cell.splits)
  with Cons show ?case by (simp add: row_values_Cons)
qed

lemma features_vectors:
  assumes ok: "train_data df = Inr td" and rect: "rectangular df" and scal: "scalar_features df"
  shows "list_all2 (\<lambda>r v. list_all2 (\<lambda>c x. cell_at (columns df) r c = Some (Scalar x))
                             (input_features df) v)
           (rows df) (vectors ''features'' td)"
proof -
  have "\<And>r. r \<in> set (rows df) \<Longrightarrow>
          list_all2 (\<lambda>c x. cell_at (columns df) r c = Some (Scalar x)) (input_features df)
            (cell_values (assemble (columns df) (input_features df) r))"
    using scal by (simp add: scalar_features_def list_all_iff assemble_def scalar_row_values)
  then show ?thesis
    by (simp add: vectors_def train_data_features_column [OF ok rect] list_all2_map2
        list_all2_same)
qed

section \<open>Properties\<close>

text \<open>
  C1 (as amended). The claim says that a row within the 7 days before the cutoff is never
  passed to the fit with a failure label. The notebook has no cutoff and resets no label:
  \<open>training\<close> is the prepared frame itself, so the (timestamp, label) pairs handed to the
  fit are exactly those of the loaded table, row by row. The counterexample after the
  witness shows a failure label inside the window reaching the fit.
\<close>

theorem training_labels_unchanged:
  assumes rect: "rectangular df" and ok: "train_data df = Inr td"
  shows "timestamp_labels (training td) = timestamp_labels df"
proof -
  let ?g = "\<lambda>r. row_values (columns df @ [''features''])
              (r @ [assemble (columns df) (input_features df) r])
              [''machineID'', ''dt_truncated'', ''label_e'', ''features'']"
  have "\<And>r. r \<in> set (rows df) \<Longrightarrow>
          (cell_at (columns td) (?g r) ''dt_truncated'', cell_at (columns td) (?g r) ''label_e'')
          = (cell_at (columns df) r ''dt_truncated'', cell_at (columns df) r ''label_e'')"
    by (simp add: train_data_row_cell [OF ok] rectangularD [OF rect])
  then show ?thesis
    by (simp add: timestamp_labels_def training_def train_data_InrD(5) [OF ok] comp_def)
qed

theorem training_labels_unchanged_witness:
  "rectangular example_table \<and> train_data example_table = Inr example_train_data \<and>
   timestamp_labels (training example_train_data) =
     [(Some (Scalar 98), Some (Scalar 3)), (Some (Scalar 120), Some (Scalar 0)),
      (Some (Scalar 50), Some (Scalar 0))]"
proof -
  have r: "rectangular example_table" by code_simp
  have t: "train_data example_table = Inr example_train_data" by code_simp
  have "timestamp_labels example_table =
     [(Some (Scalar 98), Some (Scalar 3)), (Some (Scalar 120), Some (Scalar 0)),
      (Some (Scalar 50), Some (Scalar 0))]" by code_simp
  with r t training_labels_unchanged [OF r t] show ?thesis by simp
qed

theorem censoring_counterexample:
  "train_data example_table = Inr example_train_data \<and>
   (Some (Scalar 98), Some (Scalar 3)) \<in> set (timestamp_labels (training example_train_data)) \<and>
   in_censoring_window 100 (Some (Scalar 98)) \<and> failure_class (Some (Scalar 3)) \<and>
   \<not> censored 100 (training example_train_data)"
  by code_simp

text \<open>
  C2 (as amended). The claim says that the fit runs on the rows with timestamp at most
  \<open>T\<close> and that later rows are held out. The notebook takes no cutoff: the frame handed
  to the pipeline's fit is the whole prepared frame, the same frame both indexers are fit
  on; it has one row per row of the loaded table, with the same timestamps. Whenever the
  fit returns, the classifier has been fit on that whole frame; when it does not, it is
  the classifier's fit on that frame that failed. The counterexample after the witness
  shows a row later than the cutoff in the training frame.
\<close>

theorem training_is_whole_table:
  assumes rect: "rectangular df" and ok: "train_data df = Inr td"
  shows "training td = td \<and>
         pipeline_cls_mthd td model_type =
           [StringIndexerModel (string_indexer_fit ''label_e'' td),
            VectorIndexerModel (vector_indexer_fit 10 ''features'' td),
            Estimator (model model_type)] \<and>
         (case model_pipeline td model_type of
            Inl e \<Rightarrow> classifier_fit (model model_type) td = Inl e
          | Inr fitted \<Rightarrow>
              fitted =
                [StringIndexerModel (string_indexer_fit ''label_e'' td),
                 VectorIndexerModel (vector_indexer_fit 10 ''features'' td),
                 ClassificationModel (model model_type) td]) \<and>
         length (rows (training td)) = length (rows df) \<and>
         map (\<lambda>r. cell_at (columns td) r ''dt_truncated'') (rows (training td)) =
           map (\<lambda>r. cell_at (columns df) r ''dt_truncated'') (rows df)"
proof -
  have t: "map (\<lambda>r. cell_at (columns td) r ''dt_truncated'') (rows (training td)) =
           map (\<lambda>r. cell_at (columns df) r ''dt_truncated'') (rows df)"
    using train_data_column [OF ok rect, of "''dt_truncated''"] by (simp add: training_def)
  have n: "length (rows (training td)) = length (rows df)"
    by (simp add: training_def train_data_InrD(5) [OF ok])
  have p: "pipeline_cls_mthd td model_type =
           [StringIndexerModel (string_indexer_fit ''label_e'' td),
            VectorIndexerModel (vector_indexer_fit 10 ''features'' td),
            Estimator (model model_type)]"
    by (simp add: pipeline_cls_mthd_def labelIndexer_def featureIndexer_def)
  have f: "case model_pipeline td model_type of
            Inl e \<Rightarrow> classifier_fit (model model_type) td = Inl e
          | Inr fitted \<Rightarrow>
              fitted =
                [StringIndexerModel (string_indexer_fit ''label_e'' td),
                 VectorIndexerModel (vector_indexer_fit 10 ''features'' td),
                 ClassificationModel (model model_type) td]"
    by (auto simp: model_pipeline_eq labelIndexer_def featureIndexer_def
        dest: classifier_fit_InrD split: sum.splits)
  have tr: "training td = td" by (simp add: training_def)
  show ?thesis by (intro conjI tr p f n t)
qed

theorem training_is_whole_table_witness:
  "rectangular example_table \<and> train_data example_table = Inr example_train_data \<and>
   training example_train_data = example_train_data \<and>
   model_pipeline example_train_data ''RandomForest'' =
     Inr [StringIndexerModel (string_indexer_fit ''label_e'' example_train_data),
          VectorIndexerModel (vector_indexer_fit 10 ''features'' example_train_data),
          ClassificationModel (model ''RandomForest'') example_train_data] \<and>
   length (rows (training example_train_data)) = 3 \<and>
   map (\<lambda>r. cell_at (columns example_train_data) r ''dt_truncated'')
     (rows (training example_train_data)) =
     [Some (Scalar 98), Some (Scalar 120), Some (Scalar 50)]"
proof -
  have r: "rectangular example_table" by code_simp
  have t: "train_data example_table = Inr example_train_data" by code_simp
  have n: "length (rows example_table) = 3" by code_simp
  have d: "map (\<lambda>r. cell_at (columns example_table) r ''dt_truncated'') (rows example_table) =
     [Some (Scalar 98), Some (Scalar 120), Some (Scalar 50)]" by code_simp
  have v: "vectors ''features'' example_train_data = [[170, 450], [168, 440], [170, 445]]"
    by code_simp
  have ok: "\<exists>fitted. model_pipeline example_train_data ''RandomForest'' = Inr fitted"
    by (simp add: model_pipeline_eq classifier_fit_def v)
  note T = training_is_whole_table [OF r t, of "''RandomForest''"]
  have a: "training example_train_data = example_train_data"
    using T by (rule conjunct1)
  have b: "model_pipeline example_train_data ''RandomForest'' =
     Inr [StringIndexerModel (string_indexer_fit ''label_e'' example_train_data),
          VectorIndexerModel (vector_indexer_fit 10 ''features'' example_train_data),
          ClassificationModel (model ''RandomForest'') example_train_data]"
    using T [THEN conjunct2, THEN conjunct2, THEN conjunct1] ok by auto
  have c: "length (rows (training example_train_data)) = 3"
    using T [THEN conjunct2, THEN conjunct2, THEN conjunct2, THEN conjunct1] n by simp
  have e: "map (\<lambda>r. cell_at (columns example_train_data) r ''dt_truncated'')
     (rows (training example_train_data)) =
     [Some (Scalar 98), Some (Scalar 120), Some (Scalar 50)]"
    using T [THEN conjunct2, THEN conjunct2, THEN conjunct2, THEN conjunct2] d by simp
  show ?thesis by (intro conjI r t a b c e)
qed

theorem time_split_counterexample:
  "train_data example_table = Inr example_train_data \<and>
   [Scalar 1, Scalar 120, Scalar 0, Vector [168, 440]] \<in> set (rows (training example_train_data)) \<and>
   cell_at (columns example_train_data) [Scalar (1::int), Scalar 120, Scalar 0, Vector [168, 440]]
     ''dt_truncated'' = Some (Scalar 120) \<and> (100::int) < 120 \<and>
   [Scalar 1, Scalar 120, Scalar 0, Vector [168, 440]] \<notin> set (rows (time_split 100 example_train_data)) \<and>
   training example_train_data \<noteq> time_split 100 example_train_data"
  by code_simp

text \<open>
  C3. Every model-type token other than \<open>DecisionTree\<close> (the empty string, an unknown
  string, \<open>GBTClassifier\<close>) selects the random forest with its default hyperparameters.
  The selector is a total function with no failing branch, so no token raises.
\<close>

theorem model_default_is_random_forest:
  "model_type \<noteq> ''DecisionTree'' \<Longrightarrow>
   model model_type =
     RandomForestClassifier
       \<lparr>labelCol = ''indexedLabel'', featuresCol = ''indexedFeatures'',
        maxDepth = 15, maxBins = 32, minInstancesPerNode = 1, minInfoGain = 0.0,
        impurity = ''gini'',
        numTrees = 200, featureSubsetStrategy = ''sqrt'', subsamplingRate = 0.632\<rparr>"
  by (simp add: model_def)

theorem model_default_is_random_forest_witness:
  "''GBTClassifier'' \<noteq> ''DecisionTree'' \<and> '''' \<noteq> ''DecisionTree'' \<and>
   model ''GBTClassifier'' = model '''' \<and>
   (\<exists>p. model ''GBTClassifier'' = RandomForestClassifier p \<and> numTrees p = 200)"
  using model_default_is_random_forest [of "''GBTClassifier''"]
    model_default_is_random_forest [of "''''"]
  by simp

text \<open>
  C4. For the recognised tokens \<open>DecisionTree\<close> and \<open>RandomForest\<close> the classifier has
  maximum depth 15, 32 bins, 1 instance per node at least, minimum information gain 0.0 and
  Gini impurity; the random forest has in addition 200 trees, the \<open>sqrt\<close> feature-subset
  strategy and subsampling rate 0.632.
\<close>

theorem model_hyperparameters:
  assumes "model_type = ''DecisionTree'' \<or> model_type = ''RandomForest''"
  shows "maxDepth (tree_params_of (model model_type)) = 15 \<and>
         maxBins (tree_params_of (model model_type)) = 32 \<and>
         minInstancesPerNode (tree_params_of (model model_type)) = 1 \<and>
         minInfoGain (tree_params_of (model model_type)) = 0.0 \<and>
         impurity (tree_params_of (model model_type)) = ''gini'' \<and>
         (model_type = ''DecisionTree'' \<longrightarrow> (\<exists>p. model model_type = DecisionTreeClassifier p)) \<and>
         (model_type = ''RandomForest'' \<longrightarrow>
            (\<exists>p. model model_type = RandomForestClassifier p \<and> numTrees p = 200 \<and>
                 featureSubsetStrategy p = ''sqrt'' \<and> subsamplingRate p = 0.632))"
  using assms by (auto simp: model_def tree_params.defs)

theorem model_hyperparameters_witness:
  "maxDepth (tree_params_of (model ''DecisionTree'')) = 15 \<and>
   maxBins (tree_params_of (model ''RandomForest'')) = 32 \<and>
   (\<exists>p. model ''DecisionTree'' = DecisionTreeClassifier p) \<and>
   (\<exists>p. model ''RandomForest'' = RandomForestClassifier p \<and> numTrees p = 200 \<and>
        featureSubsetStrategy p = ''sqrt'' \<and> subsamplingRate p = 0.632)"
  using model_hyperparameters [of "''DecisionTree''"] model_hyperparameters [of "''RandomForest''"]
  by simp

text \<open>
  C5. The artifact path is \<open>dbfs:/storage/models/\<close> followed by the token and \<open>.pqt\<close>, a
  function of the token alone. Saving always succeeds and stores the pipeline at that path,
  replacing whatever artifact was there; saving the same pipeline a second time leaves the
  store as one save left it. A run that gets through the fit ends with the fitted pipeline
  stored at that path; a run that raises leaves the store as it was.
\<close>

theorem save_model_overwrites:
  "model_path model_type = ''dbfs:/storage/models/'' @ model_type @ ''.pqt'' \<and>
   save_model p model_type st = Inr (st(model_path model_type \<mapsto> p)) \<and>
   save_model p model_type (st(model_path model_type \<mapsto> q)) = Inr (st(model_path model_type \<mapsto> p)) \<and>
   (case save_model p model_type st of
      Inl e \<Rightarrow> False
    | Inr st' \<Rightarrow> save_model p model_type st' = Inr st') \<and>
   (train_data df = Inr td \<longrightarrow> model_pipeline td model_type = Inr fitted \<longrightarrow>
      raised (notebook df model_type st0) = None \<and>
      artifacts (notebook df model_type st0) = st0(model_path model_type \<mapsto> fitted)) \<and>
   (raised (notebook df model_type st0) \<noteq> None \<longrightarrow>
      artifacts (notebook df model_type st0) = st0)"
proof -
  have s: "\<And>x s. save_model x model_type s = Inr (s(model_path model_type \<mapsto> x))"
    by (simp add: save_model_def save_def overwrite_def writer_def)
  have 1: "model_path model_type = ''dbfs:/storage/models/'' @ model_type @ ''.pqt''"
    by (simp add: model_path_def)
  have 2: "save_model p model_type st = Inr (st(model_path model_type \<mapsto> p))"
    by (rule s)
  have 3: "save_model p model_type (st(model_path model_type \<mapsto> q)) =
             Inr (st(model_path model_type \<mapsto> p))"
    by (simp add: s)
  have 4: "case save_model p model_type st of
      Inl e \<Rightarrow> False
    | Inr st' \<Rightarrow> save_model p model_type st' = Inr st'"
    by (simp add: s)
  have 5: "train_data df = Inr td \<longrightarrow> model_pipeline td model_type = Inr fitted \<longrightarrow>
      raised (notebook df model_type st0) = None \<and>
      artifacts (notebook df model_type st0) = st0(model_path model_type \<mapsto> fitted)"
    by (simp add: notebook_def s)
  have 6: "raised (notebook df model_type st0) \<noteq> None \<longrightarrow>
      artifacts (notebook df model_type st0) = st0"
    by (simp add: notebook_def s split: sum.splits)
  show ?thesis by (intro conjI 1 2 3 4 5 6)
qed

theorem save_model_overwrites_witness:
  "train_data example_table = Inr example_train_data \<and>
   model_pipeline example_train_data ''RandomForest'' =
     Inr [StringIndexerModel (labelIndexer example_train_data),
          VectorIndexerModel (featureIndexer example_train_data),
          ClassificationModel (model ''RandomForest'') example_train_data] \<and>
   artifacts (notebook example_table ''RandomForest'' Map.empty) =
     [''dbfs:/storage/models/RandomForest.pqt'' \<mapsto>
        [StringIndexerModel (labelIndexer example_train_data),
         VectorIndexerModel (featureIndexer example_train_data),
         ClassificationModel (model ''RandomForest'') example_train_data]] \<and>
   raised (notebook keys_only_table ''RandomForest'' Map.empty) \<noteq> None \<and>
   artifacts (notebook keys_only_table ''RandomForest'' Map.empty) = Map.empty"
proof -
  let ?fitted = "[StringIndexerModel (labelIndexer example_train_data),
                  VectorIndexerModel (featureIndexer example_train_data),
                  ClassificationModel (model ''RandomForest'') example_train_data]"
  have t: "train_data example_table = Inr example_train_data" by code_simp
  have v: "vectors ''features'' example_train_data = [[170, 450], [168, 440], [170, 445]]"
    by code_simp
  have m: "model_pipeline example_train_data ''RandomForest'' = Inr ?fitted"
    by (simp add: model_pipeline_eq classifier_fit_def v)
  note R = save_model_overwrites [of "''RandomForest''" ?fitted Map.empty ?fitted example_table
      example_train_data ?fitted Map.empty]
  have pr: "model_path ''RandomForest'' = ''dbfs:/storage/models/RandomForest.pqt''"
    using R [THEN conjunct1] by simp
  have a: "artifacts (notebook example_table ''RandomForest'' Map.empty) =
     [''dbfs:/storage/models/RandomForest.pqt'' \<mapsto> ?fitted]"
    using R [THEN conjunct2, THEN conjunct2, THEN conjunct2, THEN conjunct2, THEN conjunct1,
             rule_format, OF t m, THEN conjunct2]
    by (simp only: pr)
  have k: "train_data keys_only_table =
     Inr \<lparr>columns = [''machineID'', ''dt_truncated'', ''label_e'', ''features''],
          rows = [[Scalar 1, Scalar 98, Scalar 3, Vector []]]\<rparr>" by code_simp
  have kv: "vectors ''features'' \<lparr>columns = [''machineID'', ''dt_truncated'', ''label_e'', ''features''],
          rows = [[Scalar (1::int), Scalar 98, Scalar 3, Vector []]]\<rparr> = [[]]" by code_simp
  have f: "raised (notebook keys_only_table ''RandomForest'' Map.empty) \<noteq> None"
    by (simp add: notebook_def k model_pipeline_eq classifier_fit_def kv)
  have b: "artifacts (notebook keys_only_table ''RandomForest'' Map.empty) = Map.empty"
    using save_model_overwrites [of "''RandomForest''" ?fitted Map.empty ?fitted keys_only_table
      example_train_data ?fitted Map.empty, THEN conjunct2, THEN conjunct2, THEN conjunct2,
      THEN conjunct2, THEN conjunct2, rule_format, OF f] .
  show ?thesis by (intro conjI t m a f b)
qed

text \<open>
  C6. The columns given to the assembler are the table's columns without \<open>label_e\<close>,
  \<open>machineID\<close>, \<open>dt_truncated\<close>, \<open>failure\<close>, \<open>model_encoded\<close> and \<open>model\<close>, in the
  table's column order. They depend on the column sequence only: two tables with the same
  columns, whatever their rows and row order, give the same feature columns. These are the
  columns assembled: in the prepared frame the \<open>features\<close> cell of each row is the vector
  of the row's cells in exactly those columns, in that order; for scalar columns, slot by
  slot the value the row has in the column of the same position.
\<close>

theorem input_features_exclusion:
  "input_features df =
     filter (\<lambda>c. c \<notin> {''label_e'', ''machineID'', ''dt_truncated'', ''failure'', ''model_encoded'',
                         ''model''}) (columns df) \<and>
   inputCols (va df) = input_features df \<and>
   set (input_features df) =
     set (columns df) - {''label_e'', ''machineID'', ''dt_truncated'', ''failure'', ''model_encoded'',
                         ''model''} \<and>
   subseq (input_features df) (columns df) \<and>
   (columns df' = columns df \<longrightarrow> inputCols (va df') = inputCols (va df)) \<and>
   inputCols (va (df\<lparr>rows := rs\<rparr>)) = inputCols (va df) \<and>
   (rectangular df \<longrightarrow> train_data df = Inr td \<longrightarrow>
      column_values ''features'' td =
        map (\<lambda>r. Vector (concat (map cell_values
                                    (row_values (columns df) r (input_features df)))))
          (rows df)) \<and>
   (rectangular df \<longrightarrow> train_data df = Inr td \<longrightarrow> scalar_features df \<longrightarrow>
      list_all2 (\<lambda>r v. list_all2 (\<lambda>c x. cell_at (columns df) r c = Some (Scalar x))
                         (input_features df) v)
        (rows df) (vectors ''features'' td))"
proof -
  have s: "set remove_names = {''label_e'', ''machineID'', ''dt_truncated'', ''failure'', ''model_encoded'',
                         ''model''}"
    by (simp add: remove_names_def label_var_def key_cols_def)
  have 1: "input_features df =
     filter (\<lambda>c. c \<notin> {''label_e'', ''machineID'', ''dt_truncated'', ''failure'', ''model_encoded'',
                         ''model''}) (columns df)"
    unfolding input_features_def s ..
  have 3: "set (input_features df) =
     set (columns df) - {''label_e'', ''machineID'', ''dt_truncated'', ''failure'', ''model_encoded'',
                         ''model''}"
    unfolding 1 by auto
  have 4: "subseq (input_features df) (columns df)"
    unfolding 1 by simp
  have 5: "columns df' = columns df \<longrightarrow> inputCols (va df') = inputCols (va df)"
    by (simp add: va_def input_features_def)
  have 6: "inputCols (va (df\<lparr>rows := rs\<rparr>)) = inputCols (va df)"
    by (simp add: va_def input_features_def)
  have 2: "inputCols (va df) = input_features df" by (simp add: va_def)
  have 7: "rectangular df \<longrightarrow> train_data df = Inr td \<longrightarrow>
      column_values ''features'' td =
        map (\<lambda>r. Vector (concat (map cell_values
                                    (row_values (columns df) r (input_features df)))))
          (rows df)"
    using train_data_features_column [of df td] by (simp add: assemble_def)
  have 8: "rectangular df \<longrightarrow> train_data df = Inr td \<longrightarrow> scalar_features df \<longrightarrow>
      list_all2 (\<lambda>r v. list_all2 (\<lambda>c x. cell_at (columns df) r c = Some (Scalar x))
                         (input_features df) v)
        (rows df) (vectors ''features'' td)"
    using features_vectors [of df td] by blast
  show ?thesis by (intro conjI 1 2 3 4 5 6 7 8)
qed

theorem input_features_exclusion_witness:
  "input_features example_table = [''volt'', ''rotate''] \<and>
   inputCols (va (example_table\<lparr>rows := rev (rows example_table)\<rparr>)) = [''volt'', ''rotate''] \<and>
   rectangular example_table \<and> train_data example_table = Inr example_train_data \<and>
   scalar_features example_table \<and>
   column_values ''features'' example_train_data =
     [Vector [170, 450], Vector [168, 440], Vector [170, 445]] \<and>
   list_all2 (\<lambda>r v. list_all2 (\<lambda>c x. cell_at (columns example_table) r c = Some (Scalar x))
                      [''volt'', ''rotate''] v)
     (rows example_table) [[170, 450], [168, 440], [170, 445]]"
proof -
  have f: "filter (\<lambda>c. c \<notin> {''label_e'', ''machineID'', ''dt_truncated'', ''failure'', ''model_encoded'',
                         ''model''}) (columns example_table) = [''volt'', ''rotate'']"
    by (simp add: example_table_def)
  have r: "rectangular example_table" by code_simp
  have t: "train_data example_table = Inr example_train_data" by code_simp
  have sc: "scalar_features example_table" by code_simp
  have v: "vectors ''features'' example_train_data = [[170, 450], [168, 440], [170, 445]]"
    by code_simp
  have m: "map (\<lambda>r. Vector (concat (map cell_values
                                    (row_values (columns example_table) r [''volt'', ''rotate'']))))
          (rows example_table) = [Vector [170, 450], Vector [168, 440], Vector [170, 445]]"
    by code_simp
  note T = input_features_exclusion [of example_table example_table "rev (rows example_table)"
      example_train_data]
  have i: "input_features example_table = [''volt'', ''rotate'']"
    using T [THEN conjunct1] f by simp
  have j: "inputCols (va (example_table\<lparr>rows := rev (rows example_table)\<rparr>)) = [''volt'', ''rotate'']"
    using T [THEN conjunct2, THEN conjunct2, THEN conjunct2, THEN conjunct2, THEN conjunct2,
             THEN conjunct1] T [THEN conjunct2, THEN conjunct1] i by simp
  have c: "column_values ''features'' example_train_data =
     [Vector [170, 450], Vector [168, 440], Vector [170, 445]]"
    using T [THEN conjunct2, THEN conjunct2, THEN conjunct2, THEN conjunct2, THEN conjunct2,
             THEN conjunct2, THEN conjunct1, rule_format, OF r t] m
    by (simp only: i)
  have l: "list_all2 (\<lambda>r v. list_all2 (\<lambda>c x. cell_at (columns example_table) r c = Some (Scalar x))
                      [''volt'', ''rotate''] v)
     (rows example_table) [[170, 450], [168, 440], [170, 445]]"
    using T [THEN conjunct2, THEN conjunct2, THEN conjunct2, THEN conjunct2, THEN conjunct2,
             THEN conjunct2, THEN conjunct2, rule_format, OF r t sc]
    by (simp only: i v)
  show ?thesis by (intro conjI i j r t sc c l)
qed

text \<open>
  C7. The label indexer is fit on the prepared frame, which holds every row of the loaded
  table. Its labels are the distinct values of \<open>label_e\<close> in the whole table, each once,
  ordered by descending frequency; the index of a label is its position, so the indices
  are the numbers below the number of labels. The fitted indexer is the first stage of the
  pipeline, and of the fitted pipeline whenever the fit returns, as it is (the pipeline
  does not fit it again). The model is a function of the frame, so fitting again on the
  same frame gives the same mapping.
\<close>

theorem labelIndexer_dense_by_frequency:
  assumes rect: "rectangular df" and ok: "train_data df = Inr td"
  shows "distinct (labels (labelIndexer td)) \<and>
         set (labels (labelIndexer td)) = set (column_values ''label_e'' df) \<and>
         (\<forall>i j. i \<le> j \<longrightarrow> j < length (labels (labelIndexer td)) \<longrightarrow>
            count_list (column_values ''label_e'' df) (labels (labelIndexer td) ! j)
              \<le> count_list (column_values ''label_e'' df) (labels (labelIndexer td) ! i)) \<and>
         (\<forall>l i. label_index (labelIndexer td) l = Some i \<longleftrightarrow>
            i < length (labels (labelIndexer td)) \<and> labels (labelIndexer td) ! i = l) \<and>
         pipeline_cls_mthd td model_type ! 0 = StringIndexerModel (labelIndexer td) \<and>
         (\<forall>fitted. model_pipeline td model_type = Inr fitted \<longrightarrow>
            fitted ! 0 = StringIndexerModel (labelIndexer td))"
proof -
  let ?vals = "column_values ''label_e'' df"
  let ?f = "\<lambda>l. - int (count_list ?vals l)"
  let ?ls = "labels (labelIndexer td)"
  have ls: "?ls = sort_key ?f (first_seen ?vals)"
    by (simp add: labelIndexer_def string_indexer_fit_def Let_def
        train_data_column_values [OF ok rect])
  have d: "distinct ?ls" unfolding ls by (simp add: distinct_first_seen)
  have s: "set ?ls = set ?vals" unfolding ls by (simp add: set_first_seen)
  have "sorted (map ?f ?ls)" unfolding ls by (rule sorted_sort_key)
  then have "\<forall>i j. i \<le> j \<longrightarrow> j < length ?ls \<longrightarrow> ?f (?ls ! i) \<le> ?f (?ls ! j)"
    by (simp add: sorted_iff_nth_mono)
  then have o: "\<forall>i j. i \<le> j \<longrightarrow> j < length ?ls \<longrightarrow>
                  count_list ?vals (?ls ! j) \<le> count_list ?vals (?ls ! i)"
    by simp
  have i: "\<forall>l i. label_index (labelIndexer td) l = Some i \<longleftrightarrow> i < length ?ls \<and> ?ls ! i = l"
    using index_of_Some_iff [OF d] by (simp add: label_index_def)
  have p: "pipeline_cls_mthd td model_type ! 0 = StringIndexerModel (labelIndexer td)"
    by (simp add: pipeline_cls_mthd_def)
  have q: "\<forall>fitted. model_pipeline td model_type = Inr fitted \<longrightarrow>
            fitted ! 0 = StringIndexerModel (labelIndexer td)"
    by (auto simp: model_pipeline_eq split: sum.splits)
  show ?thesis by (intro conjI d s o i p q)
qed

theorem labelIndexer_dense_by_frequency_witness:
  "rectangular example_table \<and> train_data example_table = Inr example_train_data \<and>
   column_values ''label_e'' example_table = [Scalar 3, Scalar 0, Scalar 0] \<and>
   labels (labelIndexer example_train_data) = [Scalar 0, Scalar 3] \<and>
   label_index (labelIndexer example_train_data) (Scalar 0) = Some 0 \<and>
   label_index (labelIndexer example_train_data) (Scalar 3) = Some 1 \<and>
   count_list (column_values ''label_e'' example_table) (labels (labelIndexer example_train_data) ! 1)
     \<le> count_list (column_values ''label_e'' example_table) (labels (labelIndexer example_train_data) ! 0)"
proof -
  have r: "rectangular example_table" by code_simp
  have t: "train_data example_table = Inr example_train_data" by code_simp
  have v: "column_values ''label_e'' example_table = [Scalar 3, Scalar 0, Scalar 0]" by code_simp
  have v': "column_values ''label_e'' example_train_data = [Scalar 3, Scalar 0, Scalar 0]"
    by code_simp
  have f: "first_seen [Scalar 3, Scalar 0, Scalar (0::int)] = [Scalar 3, Scalar 0]" by code_simp
  have l: "labels (labelIndexer example_train_data) = [Scalar 0, Scalar 3]"
    by (simp add: labelIndexer_def string_indexer_fit_def v' f)
  note T = labelIndexer_dense_by_frequency [OF r t, of "''RandomForest''"]
  note I = T [THEN conjunct2, THEN conjunct2, THEN conjunct2, THEN conjunct1, rule_format]
  note O = T [THEN conjunct2, THEN conjunct2, THEN conjunct1, rule_format]
  have i0: "label_index (labelIndexer example_train_data) (Scalar 0) = Some 0"
    using I [of "Scalar 0" 0] l by simp
  have i1: "label_index (labelIndexer example_train_data) (Scalar 3) = Some 1"
    using I [of "Scalar 3" 1] l by simp
  have c: "count_list (column_values ''label_e'' example_table) (labels (labelIndexer example_train_data) ! 1)
     \<le> count_list (column_values ''label_e'' example_table) (labels (labelIndexer example_train_data) ! 0)"
    using O [of 0 1] l by simp
  show ?thesis by (intro conjI r t v l i0 i1 c)
qed

text \<open>
  C8. For a table whose feature cells are scalars, the feature indexer has one slot per
  input feature column, and slot \<open>j\<close> is categorical (has a category map) exactly when
  column \<open>input_features ! j\<close> has at most 10 distinct values in the table; otherwise it
  has no map and passes through. A category map lists the distinct values of the column,
  each once, against the indices from 0 upwards.
\<close>

theorem featureIndexer_threshold:
  assumes rect: "rectangular df" and ok: "train_data df = Inr td"
    and scal: "scalar_features df" and ne: "rows df \<noteq> []"
    and j: "j < length (input_features df)"
  shows "numFeatures (featureIndexer td) = length (input_features df) \<and>
         (map_of (categoryMaps (featureIndexer td)) j \<noteq> None \<longleftrightarrow>
            card (set (column_values (input_features df ! j) df)) \<le> 10) \<and>
         (\<forall>m. map_of (categoryMaps (featureIndexer td)) j = Some m \<longrightarrow>
            distinct (map fst m) \<and>
            Scalar ` set (map fst m) = set (column_values (input_features df ! j) df) \<and>
            map snd m = [0..<length m])"
proof -
  let ?names = "input_features df"
  let ?c = "?names ! j"
  let ?vs = "vectors ''features'' td"
  let ?Q = "\<lambda>r v. list_all2 (\<lambda>c x. cell_at (columns df) r c = Some (Scalar x)) ?names v"
  have L: "list_all2 ?Q (rows df) ?vs"
    by (rule features_vectors [OF ok rect scal])
  have len: "\<And>v. v \<in> set ?vs \<Longrightarrow> length v = length ?names"
  proof -
    fix v assume "v \<in> set ?vs"
    then obtain i where "i < length ?vs" and "?vs ! i = v"
      by (auto simp: in_set_conv_nth)
    with L have "?Q (rows df ! i) v"
      by (auto dest: list_all2_nthD2)
    then show "length v = length ?names"
      by (simp add: list_all2_lengthD)
  qed
  from L ne obtain v0 vs' where vs: "?vs = v0 # vs'"
    by (cases ?vs) (auto dest: list_all2_lengthD)
  then have "length v0 = length ?names" using len by simp
  then have n: "numFeatures (featureIndexer td) = length ?names"
    by (simp add: featureIndexer_def vector_indexer_fit_def Let_def vs)
  have slots: "List.map_filter (slot j) ?vs = map (\<lambda>v. v ! j) ?vs"
    by (rule map_filter_all_Some) (simp add: slot_def len j)
  have "list_all2 (\<lambda>r v. cell_at (columns df) r ?c = Some (Scalar (v ! j))) (rows df) ?vs"
    using L
  proof (rule list_all2_mono)
    fix r v assume "?Q r v"
    from list_all2_nthD [OF this j]
    show "cell_at (columns df) r ?c = Some (Scalar (v ! j))" .
  qed
  then have col: "column_values ?c df = map (\<lambda>v. Scalar (v ! j)) ?vs"
    unfolding column_values_def by (rule list_all2_map_filter)
  have img: "set (column_values ?c df) = Scalar ` set (List.map_filter (slot j) ?vs)"
    unfolding col slots by (simp add: image_image)
  have "card (Scalar ` set (List.map_filter (slot j) ?vs)) = card (set (List.map_filter (slot j) ?vs))"
    by (rule card_image) (simp add: inj_on_def)
  then have card: "card (set (column_values ?c df)) = length (feature_values j ?vs)"
    by (simp add: img length_feature_values)
  have look: "map_of (categoryMaps (featureIndexer td)) j =
     (if length (feature_values j ?vs) \<le> 10
      then Some (category_map (feature_values j ?vs)) else None)"
    using categoryMaps_lookup [of j 10 "''features''" td] n j by (simp add: featureIndexer_def)
  have fv: "set (feature_values j ?vs) = set (List.map_filter (slot j) ?vs)"
    and dv: "distinct (feature_values j ?vs)"
    by (simp_all add: feature_values_def)
  have 2: "map_of (categoryMaps (featureIndexer td)) j \<noteq> None \<longleftrightarrow>
            card (set (column_values ?c df)) \<le> 10"
    by (simp add: look card)
  have 3: "\<forall>m. map_of (categoryMaps (featureIndexer td)) j = Some m \<longrightarrow>
            distinct (map fst m) \<and>
            Scalar ` set (map fst m) = set (column_values ?c df) \<and>
            map snd m = [0..<length m]"
  proof (intro allI impI)
    fix m assume "map_of (categoryMaps (featureIndexer td)) j = Some m"
    then have m: "m = category_map (feature_values j ?vs)"
      by (simp add: look split: if_splits)
    have f: "map fst m = feature_values j ?vs"
      and s: "map snd m = [0..<length (feature_values j ?vs)]"
      using category_map_props [of "feature_values j ?vs"] by (simp_all add: m)
    have lm: "length m = length (feature_values j ?vs)"
      by (simp add: m category_map_def)
    show "distinct (map fst m) \<and>
            Scalar ` set (map fst m) = set (column_values ?c df) \<and>
            map snd m = [0..<length m]"
      unfolding f s lm using dv by (simp add: fv img)
  qed
  show ?thesis by (intro conjI n 2 3)
qed

theorem featureIndexer_threshold_witness:
  "rectangular wide_table \<and> train_data wide_table = Inr wide_train_data \<and>
   scalar_features wide_table \<and> rows wide_table \<noteq> [] \<and>
   input_features wide_table = [''volt'', ''age''] \<and>
   card (set (column_values ''volt'' wide_table)) = 11 \<and>
   map_of (categoryMaps (featureIndexer wide_train_data)) 0 = None \<and>
   card (set (column_values ''age'' wide_table)) = 2 \<and>
   map_of (categoryMaps (featureIndexer wide_train_data)) 1 \<noteq> None"
proof -
  have r: "rectangular wide_table" by code_simp
  have t: "train_data wide_table = Inr wide_train_data" by code_simp
  have s: "scalar_features wide_table" by code_simp
  have ne: "rows wide_table \<noteq> []" by code_simp
  have i: "input_features wide_table = [''volt'', ''age'']" by code_simp
  have cv: "card (set (column_values ''volt'' wide_table)) = 11" by code_simp
  have ca: "card (set (column_values ''age'' wide_table)) = 2" by code_simp
  have j0: "0 < length (input_features wide_table)" and j1: "1 < length (input_features wide_table)"
    by (simp_all add: i)
  note T0 = featureIndexer_threshold [OF r t s ne j0, THEN conjunct2, THEN conjunct1]
  note T1 = featureIndexer_threshold [OF r t s ne j1, THEN conjunct2, THEN conjunct1]
  have m0: "map_of (categoryMaps (featureIndexer wide_train_data)) 0 = None"
    using T0 cv by (simp add: i)
  have m1: "map_of (categoryMaps (featureIndexer wide_train_data)) 1 \<noteq> None"
    using T1 ca by (simp add: i)
  show ?thesis by (intro conjI r t s ne i cv m0 ca m1)
qed

text \<open>
  C9 (as amended). The claim says that every original column is still present in the frame
  that flows on to indexing and fitting. The assembler's transform does keep every column
  and only appends \<open>features\<close>, but the notebook then selects four columns: the frame that
  flows on has exactly the columns \<open>machineID\<close>, \<open>dt_truncated\<close>, \<open>label_e\<close> and
  \<open>features\<close>. Those three original columns are present with unchanged values; no other
  original column is. The counterexample after the witness shows a column that is gone.
\<close>

theorem select_drops_feature_columns:
  assumes rect: "rectangular df" and ok: "train_data df = Inr td"
  shows "(\<exists>vdf. va_transform (va df) df = Inr vdf \<and> columns vdf = columns df @ [''features''] \<and>
                map butlast (rows vdf) = rows df) \<and>
         columns td = [''machineID'', ''dt_truncated'', ''label_e'', ''features''] \<and>
         (\<forall>c \<in> {''machineID'', ''dt_truncated'', ''label_e''}.
            map (\<lambda>r. cell_at (columns td) r c) (rows td) =
            map (\<lambda>r. cell_at (columns df) r c) (rows df)) \<and>
         (\<forall>c \<in> set (columns df) - {''machineID'', ''dt_truncated'', ''label_e''}.
            c \<notin> set (columns td))"
proof -
  note D = train_data_InrD [OF ok]
  have 1: "\<exists>vdf. va_transform (va df) df = Inr vdf \<and> columns vdf = columns df @ [''features''] \<and>
                map butlast (rows vdf) = rows df"
    using D(1) D(2) by (simp add: va_transform_va comp_def)
  have 3: "\<forall>c \<in> {''machineID'', ''dt_truncated'', ''label_e''}.
            map (\<lambda>r. cell_at (columns td) r c) (rows td) =
            map (\<lambda>r. cell_at (columns df) r c) (rows df)"
    using train_data_column [OF ok rect] by blast
  have 4: "\<forall>c \<in> set (columns df) - {''machineID'', ''dt_truncated'', ''label_e''}.
            c \<notin> set (columns td)"
    using D(1) by (auto simp: D(4))
  from 1 D(4) 3 4 show ?thesis by blast
qed

theorem select_drops_feature_columns_witness:
  "rectangular example_table \<and> train_data example_table = Inr example_train_data \<and>
   columns example_train_data = [''machineID'', ''dt_truncated'', ''label_e'', ''features''] \<and>
   map (\<lambda>r. cell_at (columns example_train_data) r ''label_e'') (rows example_train_data) =
     [Some (Scalar 3), Some (Scalar 0), Some (Scalar 0)]"
proof -
  have r: "rectangular example_table" by code_simp
  have t: "train_data example_table = Inr example_train_data" by code_simp
  have l: "map (\<lambda>r. cell_at (columns example_table) r ''label_e'') (rows example_table) =
     [Some (Scalar 3), Some (Scalar 0), Some (Scalar 0)]" by code_simp
  have c: "columns example_train_data = [''machineID'', ''dt_truncated'', ''label_e'', ''features'']"
    using select_drops_feature_columns [OF r t] by blast
  have x: "map (\<lambda>r. cell_at (columns example_train_data) r ''label_e'') (rows example_train_data) =
           map (\<lambda>r. cell_at (columns example_table) r ''label_e'') (rows example_table)"
    using select_drops_feature_columns [OF r t] by blast
  show ?thesis
    by (intro conjI r t c) (simp only: x l)
qed

theorem original_columns_counterexample:
  "train_data example_table = Inr example_train_data \<and>
   ''volt'' \<in> set (columns example_table) \<and> ''volt'' \<notin> set (columns example_train_data) \<and>
   map (\<lambda>r. cell_at (columns example_table) r ''volt'') (rows example_table) =
     [Some (Scalar 170), Some (Scalar 168), Some (Scalar 170)] \<and>
   map (\<lambda>r. cell_at (columns example_train_data) r ''volt'') (rows example_train_data) =
     [None, None, None]"
  by code_simp




end
